theory Spec2Isabelle
  imports Main "HOL-Library.Sublist"
begin

section \<open>Workflow Dispatch Action: a shallow embedding of \<^verbatim>\<open>src/main.ts\<close>\<close>

text \<open>
  The action is one asynchronous function, \<^verbatim>\<open>run\<close>. It reads its inputs, decodes the
  JSON inputs, lists the workflows of a repository (paginated), finds the workflow the
  user named, dispatches it, and reads back the run the dispatch produced. Everything it
  does to the outside (log lines, network requests, outputs, the failure signal) is
  recorded here as a list of events, in the order the code performs them.

  Strings are byte sequences (UTF-8); the emoji of the log lines are written as their
  four bytes. JavaScript numbers are modelled by integers: workflow ids, run ids and HTTP
  status codes are integers, and floating point is outside the model.
\<close>

subsection \<open>Strings\<close>

text \<open>\<^verbatim>\<open>String.prototype.endsWith\<close>: the last \<open>length t\<close> characters of \<open>s\<close> are \<open>t\<close>.\<close>

definition endsWith :: "string \<Rightarrow> string \<Rightarrow> bool" where
  "endsWith s t = (length t \<le> length s \<and> drop (length s - length t) s = t)"

text \<open>\<^verbatim>\<open>Number.prototype.toString\<close> on an integer: decimal digits, with a minus sign.\<close>

definition digit_char :: "nat \<Rightarrow> char" where
  "digit_char d = ''0123456789'' ! d"

function string_of_nat :: "nat \<Rightarrow> string" where
  "string_of_nat n =
     (if n < 10 then [digit_char n] else string_of_nat (n div 10) @ [digit_char (n mod 10)])"
  by pat_completeness auto
termination
  by (relation "measure (\<lambda>n. n)") auto

declare string_of_nat.simps [simp del]

definition toString :: "int \<Rightarrow> string" where
  "toString i = (if i < 0 then CHR ''-'' # string_of_nat (nat (- i)) else string_of_nat (nat i))"

text \<open>\<^verbatim>\<open>String.prototype.split\<close> with a one-character separator.\<close>

fun split :: "char \<Rightarrow> string \<Rightarrow> string list" where
  "split c [] = [[]]"
| "split c (x # xs) =
     (if x = c then [] # split c xs
      else (case split c xs of p # ps \<Rightarrow> (x # p) # ps | [] \<Rightarrow> [[x]]))"

text \<open>
  Array destructuring \<^verbatim>\<open>const [owner, repo] = parts\<close>: a position beyond the end of the
  array gives \<^verbatim>\<open>undefined\<close> (here \<open>None\<close>); in a template literal \<^verbatim>\<open>undefined\<close> prints as
  the word.
\<close>

definition element :: "'a list \<Rightarrow> nat \<Rightarrow> 'a option" where
  "element xs i = (if i < length xs then Some (xs ! i) else None)"

fun interp :: "string option \<Rightarrow> string" where
  "interp None = ''undefined''"
| "interp (Some s) = s"

subsection \<open>JavaScript values\<close>

text \<open>
  The values that \<^verbatim>\<open>JSON.parse\<close> returns and that the bodies of HTTP responses hold
  (typed \<^verbatim>\<open>any\<close> in the source), with \<^verbatim>\<open>undefined\<close> for an absent body or property. An
  object is the list of its properties.
\<close>

datatype js_value =
    JUndefined
  | JNull
  | JBool bool
  | JNum int
  | JStr string
  | JArr "js_value list"
  | JObj "(string \<times> js_value) list"

datatype error =
    SyntaxError string
  | RequestError string
  | TypeError string
  | Error string

fun message :: "error \<Rightarrow> string" where
  "message (SyntaxError m) = m"
| "message (RequestError m) = m"
| "message (TypeError m) = m"
| "message (Error m) = m"

text \<open>
  Reading a property \<^verbatim>\<open>v.k\<close>, for the property names the code reads (\<^verbatim>\<open>status\<close>,
  \<^verbatim>\<open>workflow_url\<close>, \<^verbatim>\<open>id\<close>): on \<^verbatim>\<open>undefined\<close> and \<^verbatim>\<open>null\<close> it throws a TypeError, on an
  object it gives the property or \<^verbatim>\<open>undefined\<close>, on any other value \<^verbatim>\<open>undefined\<close>.
\<close>

definition quote :: string where
  "quote = [CHR 0x27]"

fun get_prop :: "js_value \<Rightarrow> string \<Rightarrow> error + js_value" where
  "get_prop JUndefined k =
     Inl (TypeError (''Cannot read properties of undefined (reading '' @ quote @ k @ quote @ '')''))"
| "get_prop JNull k =
     Inl (TypeError (''Cannot read properties of null (reading '' @ quote @ k @ quote @ '')''))"
| "get_prop (JObj kvs) k = Inr (case map_of kvs k of None \<Rightarrow> JUndefined | Some v \<Rightarrow> v)"
| "get_prop v k = Inr JUndefined"

text \<open>Truthiness, as \<^verbatim>\<open>&&\<close> tests it.\<close>

fun truthy :: "js_value \<Rightarrow> bool" where
  "truthy JUndefined = False"
| "truthy JNull = False"
| "truthy (JBool b) = b"
| "truthy (JNum n) = (n \<noteq> 0)"
| "truthy (JStr s) = (s \<noteq> [])"
| "truthy (JArr xs) = True"
| "truthy (JObj kvs) = True"

text \<open>
  String conversion in a template literal \<^verbatim>\<open>`${v}`\<close>. An array prints its elements
  separated by commas, \<^verbatim>\<open>null\<close> and \<^verbatim>\<open>undefined\<close> elements as nothing.
\<close>

fun join :: "string \<Rightarrow> string list \<Rightarrow> string" where
  "join sep [] = []"
| "join sep [s] = s"
| "join sep (s # t # ss) = s @ sep @ join sep (t # ss)"

fun to_string :: "js_value \<Rightarrow> string" where
  "to_string JUndefined = ''undefined''"
| "to_string JNull = ''null''"
| "to_string (JBool b) = (if b then ''true'' else ''false'')"
| "to_string (JNum n) = toString n"
| "to_string (JStr s) = s"
| "to_string (JArr xs) =
     join '','' (map (\<lambda>x. if x = JNull \<or> x = JUndefined then [] else to_string x) xs)"
| "to_string (JObj kvs) = ''[object Object]''"

subsection \<open>The workflow catalog and the matcher\<close>

text \<open>The type \<^verbatim>\<open>Workflow\<close> of the source: \<^verbatim>\<open>{ id: number, name: string, path: string }\<close>.\<close>

record workflow =
  workflow_id :: int
  workflow_name :: string
  workflow_path :: string

text \<open>
  The predicate given to \<^verbatim>\<open>workflows.find\<close>: the name is the reference, or the id printed
  as a string is the reference, or the path ends with the reference.
\<close>

definition matches :: "string \<Rightarrow> workflow \<Rightarrow> bool" where
  "matches workflowRef workflow =
     (workflow_name workflow = workflowRef \<or>
      toString (workflow_id workflow) = workflowRef \<or>
      endsWith (workflow_path workflow) workflowRef)"

text \<open>\<^verbatim>\<open>Array.prototype.find\<close> is \<^const>\<open>List.find\<close>: the first element that satisfies the predicate.\<close>

definition foundWorkflow :: "string \<Rightarrow> workflow list \<Rightarrow> workflow option" where
  "foundWorkflow workflowRef workflows = List.find (matches workflowRef) workflows"

subsection \<open>The outside world\<close>

text \<open>
  Options merged into the list-workflows endpoint (line 46), and the parameters of the
  dispatch request (lines 68-69).
\<close>

record endpoint_options =
  o_owner :: "string option"
  o_repo :: "string option"
  o_ref :: string
  o_inputs :: js_value

record request_params =
  p_ref :: string
  p_inputs :: js_value

text \<open>What \<^verbatim>\<open>octokit.request\<close> resolves to: the HTTP status and the decoded body.\<close>

record response =
  resp_status :: int
  resp_data :: js_value

text \<open>
  The paginated catalog as the provider serves it: each page request is answered by a
  page of workflows, the last one without a link to a next page, or by an error.
\<close>

datatype page_seq =
    LastPage "workflow list"
  | NextPage "workflow list" page_seq
  | FailedPage string

text \<open>
  Everything the code reads from outside: the action's inputs (\<^verbatim>\<open>core.getInput\<close>, which
  gives the empty string for an input that is not set), the ambient context
  (\<^verbatim>\<open>github.context\<close>), the version of the package, the JavaScript engine's \<^verbatim>\<open>JSON.parse\<close> (a
  syntax error is \<open>Inl\<close> of its message) and \<^verbatim>\<open>JSON.stringify\<close>, and the provider's answers to
  the requests (a failed request is \<open>Inl\<close> of the error's message). The logging calls, the
  construction of the client and \<^verbatim>\<open>core.setOutput\<close> are taken not to throw.
\<close>

record world =
  getInput :: "string \<Rightarrow> string"
  context_ref :: string
  context_owner :: string
  context_repo :: string
  version :: string
  JSON_parse :: "string \<Rightarrow> string + js_value"
  JSON_stringify :: "workflow list \<Rightarrow> string"
  listRepoWorkflows :: "endpoint_options \<Rightarrow> page_seq"
  request :: "string \<Rightarrow> request_params option \<Rightarrow> string + response"

text \<open>What the code does to the outside, one event per call.\<close>

datatype event =
    Info string
  | Debug string
  | Warning string
  | ConsoleLog string
  | SetOutput string js_value
  | SetFailed string
  | PageRequest endpoint_options nat
  | Request string "request_params option"

subsection \<open>Pagination\<close>

text \<open>
  Modelled from the spec: \<^verbatim>\<open>octokit.paginate\<close> is the client library's, it is not under
  \<^verbatim>\<open>src/\<close>. Section 4.2: the fetcher follows pagination until the provider signals no
  further pages, concatenates the pages in the order returned, and surfaces a failure
  unmodified, without retry. Section 5: pages are fetched in order, a later page being
  known only from the answer to the earlier one. The second argument numbers the requests.
\<close>

fun paginate :: "endpoint_options \<Rightarrow> nat \<Rightarrow> page_seq \<Rightarrow> (error + workflow list) \<times> event list" where
  "paginate opts n (LastPage ws) = (Inr ws, [PageRequest opts n])"
| "paginate opts n (FailedPage m) = (Inl (RequestError m), [PageRequest opts n])"
| "paginate opts n (NextPage ws rest) =
     (case paginate opts (Suc n) rest of
        (Inl e, evs) \<Rightarrow> (Inl e, PageRequest opts n # evs)
      | (Inr later, evs) \<Rightarrow> (Inr (ws @ later), PageRequest opts n # evs))"

fun pages :: "page_seq \<Rightarrow> workflow list list" where
  "pages (LastPage ws) = [ws]"
| "pages (FailedPage m) = []"
| "pages (NextPage ws rest) = ws # pages rest"

fun complete :: "page_seq \<Rightarrow> bool" where
  "complete (LastPage ws) = True"
| "complete (FailedPage m) = False"
| "complete (NextPage ws rest) = complete rest"

subsection \<open>The main function\<close>

text \<open>Lines 25-32: the inputs and their defaults.\<close>

definition workflowRef :: "world \<Rightarrow> string" where
  "workflowRef w = getInput w ''workflow''"

definition token :: "world \<Rightarrow> string" where
  "token w = getInput w ''token''"

definition ref :: "world \<Rightarrow> string" where
  "ref w = (if getInput w ''ref'' \<noteq> [] then getInput w ''ref'' else context_ref w)"

definition owner_repo :: "world \<Rightarrow> string option \<times> string option" where
  "owner_repo w =
     (if getInput w ''repo'' \<noteq> []
      then (let parts = split CHR ''/'' (getInput w ''repo'') in (element parts 0, element parts 1))
      else (Some (context_owner w), Some (context_repo w)))"

definition owner :: "world \<Rightarrow> string option" where
  "owner w = fst (owner_repo w)"

definition repo :: "world \<Rightarrow> string option" where
  "repo w = snd (owner_repo w)"

text \<open>Lines 35-39: the inputs are the empty object unless the input string is non-empty.\<close>

definition inputs :: "world \<Rightarrow> error + js_value" where
  "inputs w =
     (let inputsJson = getInput w ''inputs''
      in if inputsJson \<noteq> []
         then (case JSON_parse w inputsJson of Inl m \<Rightarrow> Inl (SyntaxError m) | Inr v \<Rightarrow> Inr v)
         else Inr (JObj []))"

text \<open>The texts of the log lines and of the not-found error.\<close>

definition banner :: "world \<Rightarrow> string" where
  "banner w = [CHR 0xF0, CHR 0x9F, CHR 0x8F, CHR 0x83] @ '' Workflow Dispatch Action v'' @ version w"

definition not_found :: "world \<Rightarrow> string" where
  "not_found w =
     ''Unable to find workflow '' @ quote @ workflowRef w @ quote @ '' in '' @
     interp (owner w) @ ''/'' @ interp (repo w) @ '' '' @ [CHR 0xF0, CHR 0x9F, CHR 0x98, CHR 0xA5]"

definition found_line :: "workflow \<Rightarrow> string" where
  "found_line f =
     [CHR 0xF0, CHR 0x9F, CHR 0x94, CHR 0x8E] @ '' Found workflow, id: '' @ toString (workflow_id f) @
     '', name: '' @ workflow_name f @ '', path: '' @ workflow_path f"

definition calling_line :: string where
  "calling_line =
     [CHR 0xF0, CHR 0x9F, CHR 0x9A, CHR 0x80] @ '' Calling GitHub API to dispatch workflow...''"

definition status_line :: "response \<Rightarrow> string" where
  "status_line r =
     [CHR 0xF0, CHR 0x9F, CHR 0x8F, CHR 0x86] @ '' API response status: '' @ toString (resp_status r)"

definition dispatch_route :: "world \<Rightarrow> workflow \<Rightarrow> string" where
  "dispatch_route w f =
     ''POST /repos/'' @ interp (owner w) @ ''/'' @ interp (repo w) @
     ''/actions/workflows/'' @ toString (workflow_id f) @ ''/dispatches''"

text \<open>
  Lines 72-85, on the response to the dispatch: when the body's \<^verbatim>\<open>status\<close> is the string
  \<^verbatim>\<open>queued\<close> and its \<^verbatim>\<open>workflow_url\<close> is truthy, one GET of that URL, whose body's \<^verbatim>\<open>id\<close> becomes
  the output \<^verbatim>\<open>runId\<close>; otherwise one log line. Both properties are read from the same body,
  so the second read cannot throw where the first did not.
\<close>

definition correlate :: "world \<Rightarrow> response \<Rightarrow> (error + unit) \<times> event list" where
  "correlate w dispatchResp =
     (case get_prop (resp_data dispatchResp) ''status'' of
        Inl e \<Rightarrow> (Inl e, [])
      | Inr status \<Rightarrow>
          (case get_prop (resp_data dispatchResp) ''workflow_url'' of
             Inl e \<Rightarrow> (Inl e, [])
           | Inr workflowUrl \<Rightarrow>
               if status = JStr ''queued'' \<and> truthy workflowUrl
               then (let route = ''GET '' @ to_string workflowUrl
                     in case request w route None of
                          Inl m \<Rightarrow> (Inl (RequestError m), [Request route None])
                        | Inr workflowRunResponse \<Rightarrow>
                            (case get_prop (resp_data workflowRunResponse) ''id'' of
                               Inl e \<Rightarrow> (Inl e, [Request route None])
                             | Inr runId \<Rightarrow>
                                 (Inr (),
                                  [Request route None,
                                   ConsoleLog (''Workflow run ID: '' @ to_string runId),
                                   SetOutput ''runId'' runId])))
               else (Inr (),
                     [ConsoleLog (''Workflow dispatch event was not successful. Status: '' @
                        to_string status)])))"

text \<open>
  Lines 45-47: the catalog, listed with the options \<^verbatim>\<open>{ owner, repo, ref, inputs }\<close>; the
  page requests are numbered from 1.
\<close>

definition options :: "world \<Rightarrow> js_value \<Rightarrow> endpoint_options" where
  "options w inputs_v = \<lparr>o_owner = owner w, o_repo = repo w, o_ref = ref w, o_inputs = inputs_v\<rparr>"

definition workflows :: "world \<Rightarrow> js_value \<Rightarrow> (error + workflow list) \<times> event list" where
  "workflows w inputs_v = paginate (options w inputs_v) 1 (listRepoWorkflows w (options w inputs_v))"

text \<open>Lines 67-70: the dispatch request, with the body \<^verbatim>\<open>{ ref, inputs }\<close>.\<close>

definition params :: "world \<Rightarrow> js_value \<Rightarrow> request_params option" where
  "params w inputs_v = Some \<lparr>p_ref = ref w, p_inputs = inputs_v\<rparr>"

definition dispatchResp :: "world \<Rightarrow> js_value \<Rightarrow> workflow \<Rightarrow> string + response" where
  "dispatchResp w inputs_v found = request w (dispatch_route w found) (params w inputs_v)"

text \<open>
  The events of lines 50-52 (the debug dump of the catalog), of lines 63-70 (two log
  lines, then the dispatch request) and of lines 88-90 (the HTTP status, then the output
  \<^verbatim>\<open>workflowId\<close>).
\<close>

definition debug_events :: "world \<Rightarrow> workflow list \<Rightarrow> event list" where
  "debug_events w catalog =
     [Debug ''### START List Workflows response data'',
      Debug (JSON_stringify w catalog),
      Debug ''### END:  List Workflows response data'']"

definition dispatch_events :: "world \<Rightarrow> js_value \<Rightarrow> workflow \<Rightarrow> event list" where
  "dispatch_events w inputs_v found =
     [ConsoleLog (found_line found),
      ConsoleLog calling_line,
      Request (dispatch_route w found) (params w inputs_v)]"

definition final_events :: "response \<Rightarrow> workflow \<Rightarrow> event list" where
  "final_events resp found =
     [Info (status_line resp), SetOutput ''workflowId'' (JNum (workflow_id found))]"

text \<open>
  Lines 25-90, the body of the \<^verbatim>\<open>try\<close>: the error thrown, if any, and the events up to
  there.
\<close>

definition run_body :: "world \<Rightarrow> (error + unit) \<times> event list" where
  "run_body w =
     (case inputs w of
        Inl e \<Rightarrow> (Inl e, [])
      | Inr inputs_v \<Rightarrow>
          (case workflows w inputs_v of
             (Inl e, evs) \<Rightarrow> (Inl e, evs)
           | (Inr catalog, evs) \<Rightarrow>
               (case foundWorkflow (workflowRef w) catalog of
                  None \<Rightarrow> (Inl (Error (not_found w)), evs @ debug_events w catalog)
                | Some found \<Rightarrow>
                    (case dispatchResp w inputs_v found of
                       Inl m \<Rightarrow>
                         (Inl (RequestError m),
                          evs @ debug_events w catalog @ dispatch_events w inputs_v found)
                     | Inr resp \<Rightarrow>
                         (case correlate w resp of
                            (Inl e, evs3) \<Rightarrow>
                              (Inl e,
                               evs @ debug_events w catalog @ dispatch_events w inputs_v found @ evs3)
                          | (Inr u, evs3) \<Rightarrow>
                              (Inr (),
                               evs @ debug_events w catalog @ dispatch_events w inputs_v found @ evs3 @
                               final_events resp found))))))"

text \<open>
  Lines 21-102: the banner, the body, and the \<^verbatim>\<open>catch\<close>: an error whose message ends with
  \<^verbatim>\<open>a disabled workflow\<close> gives a warning, any other error the failure signal with its
  message.
\<close>

definition run :: "world \<Rightarrow> event list" where
  "run w =
     (case run_body w of
        (Inr u, evs) \<Rightarrow> Info (banner w) # evs
      | (Inl e, evs) \<Rightarrow>
          if endsWith (message e) ''a disabled workflow''
          then Info (banner w) # evs @ [Warning ''Workflow is disabled, no action was taken'']
          else Info (banner w) # evs @ [SetFailed (message e)])"

subsection \<open>Reading a trace\<close>

fun failures :: "event list \<Rightarrow> string list" where
  "failures [] = []"
| "failures (SetFailed m # evs) = m # failures evs"
| "failures (ev # evs) = failures evs"

fun outputs :: "string \<Rightarrow> event list \<Rightarrow> js_value list" where
  "outputs k [] = []"
| "outputs k (SetOutput k' v # evs) = (if k' = k then v # outputs k evs else outputs k evs)"
| "outputs k (ev # evs) = outputs k evs"

fun page_requests :: "event list \<Rightarrow> nat list" where
  "page_requests [] = []"
| "page_requests (PageRequest opts n # evs) = n # page_requests evs"
| "page_requests (ev # evs) = page_requests evs"

fun requests :: "event list \<Rightarrow> (string \<times> request_params option) list" where
  "requests [] = []"
| "requests (Request route ps # evs) = (route, ps) # requests evs"
| "requests (ev # evs) = requests evs"

fun warnings :: "event list \<Rightarrow> string list" where
  "warnings [] = []"
| "warnings (Warning m # evs) = m # warnings evs"
| "warnings (ev # evs) = warnings evs"

text \<open>The number of page requests a catalog takes: one per page served, and the failing one.\<close>

fun request_count :: "page_seq \<Rightarrow> nat" where
  "request_count (LastPage ws) = 1"
| "request_count (FailedPage m) = 1"
| "request_count (NextPage ws rest) = Suc (request_count rest)"

subsection \<open>A concrete setting\<close>

text \<open>
  The scenario of section 8 of the specification: a catalog of two workflows, a dispatch
  answered \<^verbatim>\<open>queued\<close> with a run-collection URL, and a read of that URL answered with
  the run 555. The engine's \<^verbatim>\<open>JSON.parse\<close> is given on the three texts used.
\<close>

definition build :: workflow where
  "build = \<lparr>workflow_id = 1, workflow_name = ''build'', workflow_path = ''.github/workflows/build.yml''\<rparr>"

definition deploy :: workflow where
  "deploy = \<lparr>workflow_id = 2, workflow_name = ''deploy'', workflow_path = ''.github/workflows/deploy.yml''\<rparr>"

definition parse_example :: "string \<Rightarrow> string + js_value" where
  "parse_example s =
     (if s = ''{}'' then Inr (JObj [])
      else if s = ''[1]'' then Inr (JArr [JNum 1])
      else Inl ''Unexpected token b in JSON at position 1'')"

definition queued :: response where
  "queued = \<lparr>resp_status = 200,
     resp_data = JObj [(''status'', JStr ''queued''),
                       (''workflow_url'', JStr ''https://api.example/runs-collection'')]\<rparr>"

definition run_555 :: response where
  "run_555 = \<lparr>resp_status = 200, resp_data = JObj [(''id'', JNum 555)]\<rparr>"

definition unconfirmed :: response where
  "unconfirmed = \<lparr>resp_status = 200, resp_data = JObj [(''status'', JStr ''queued'')]\<rparr>"

definition no_content :: response where
  "no_content = \<lparr>resp_status = 204, resp_data = JUndefined\<rparr>"

definition disabled_message :: string where
  "disabled_message =
     ''Cannot trigger a '' @ quote @ ''workflow_dispatch'' @ quote @ '' on a disabled workflow''"

text \<open>The provider answers a GET with \<open>read\<close> and any other request with \<open>answer\<close>.\<close>

definition provider ::
  "string + response \<Rightarrow> string + response \<Rightarrow> string \<Rightarrow> request_params option \<Rightarrow> string + response" where
  "provider answer read route ps = (if take 4 route = ''GET '' then read else answer)"

definition scenario ::
  "string \<Rightarrow> string \<Rightarrow> page_seq \<Rightarrow> string + response \<Rightarrow> string + response \<Rightarrow> world" where
  "scenario reference inputsJson catalog answer read =
     \<lparr>getInput = (\<lambda>k. if k = ''workflow'' then reference
                       else if k = ''token'' then ''secret''
                       else if k = ''inputs'' then inputsJson
                       else []),
      context_ref = ''main'',
      context_owner = ''octo'',
      context_repo = ''demo'',
      version = ''1.0'',
      JSON_parse = parse_example,
      JSON_stringify = (\<lambda>ws. ''[...]''),
      listRepoWorkflows = (\<lambda>opts. catalog),
      request = provider answer read\<rparr>"

section \<open>Properties\<close>

lemma endsWith_suffix: "endsWith s t = suffix t s"
proof
  assume "endsWith s t"
  then have "s = take (length s - length t) s @ t"
    by (metis append_take_drop_id endsWith_def)
  then show "suffix t s"
    by (metis suffixI)
next
  assume "suffix t s"
  then obtain p where "s = p @ t"
    by (auto simp: suffix_def)
  then show "endsWith s t"
    by (simp add: endsWith_def)
qed

lemma endsWith_Nil: "endsWith s []"
  by (simp add: endsWith_def)

subsection \<open>Reading a trace, pagination\<close>

lemma failures_append: "failures (a @ b) = failures a @ failures b"
  by (induction a rule: failures.induct) simp_all

lemma outputs_append: "outputs k (a @ b) = outputs k a @ outputs k b"
  by (induction k a rule: outputs.induct) simp_all

lemma page_requests_append: "page_requests (a @ b) = page_requests a @ page_requests b"
  by (induction a rule: page_requests.induct) simp_all

lemma requests_append: "requests (a @ b) = requests a @ requests b"
  by (induction a rule: requests.induct) simp_all

lemma warnings_append: "warnings (a @ b) = warnings a @ warnings b"
  by (induction a rule: warnings.induct) simp_all

lemma readers_page_events:
  "failures (map (PageRequest opts) ns) = []"
  "outputs k (map (PageRequest opts) ns) = []"
  "requests (map (PageRequest opts) ns) = []"
  "warnings (map (PageRequest opts) ns) = []"
  "page_requests (map (PageRequest opts) ns) = ns"
  by (induction ns) simp_all

lemma paginate_events:
  "snd (paginate opts n ps) = map (PageRequest opts) [n ..< n + request_count ps]"
proof (induction ps arbitrary: n)
  case (NextPage ws rest)
  obtain r evs where p: "paginate opts (Suc n) rest = (r, evs)"
    by (cases "paginate opts (Suc n) rest")
  have "[n ..< n + Suc (request_count rest)] = n # [Suc n ..< Suc n + request_count rest]"
    by (simp add: upt_conv_Cons)
  moreover have "evs = map (PageRequest opts) [Suc n ..< Suc n + request_count rest]"
    using NextPage [of "Suc n"] p by simp
  ultimately show ?case
    using p by (cases r) simp_all
qed simp_all

lemma paginate_complete:
  "complete ps \<Longrightarrow> fst (paginate opts n ps) = Inr (concat (pages ps))"
proof (induction ps arbitrary: n)
  case (NextPage ws rest)
  obtain r evs where p: "paginate opts (Suc n) rest = (r, evs)"
    by (cases "paginate opts (Suc n) rest")
  have "r = Inr (concat (pages rest))"
    using NextPage.IH [of "Suc n"] NextPage.prems p by simp
  with p show ?case
    by simp
qed simp_all

lemma paginate_incomplete:
  "\<not> complete ps \<Longrightarrow> \<exists>m. fst (paginate opts n ps) = Inl (RequestError m)"
proof (induction ps arbitrary: n)
  case (NextPage ws rest)
  obtain r evs where p: "paginate opts (Suc n) rest = (r, evs)"
    by (cases "paginate opts (Suc n) rest")
  obtain m where "r = Inl (RequestError m)"
    using NextPage.IH [of "Suc n"] NextPage.prems p by auto
  with p show ?case
    by simp
qed simp_all

lemma request_count_complete: "complete ps \<Longrightarrow> request_count ps = length (pages ps)"
  by (induction ps) simp_all

subsection \<open>The shape of a run\<close>

lemma workflows_events:
  "workflows w v = (r, evs) \<Longrightarrow>
   evs = map (PageRequest (options w v)) [1 ..< 1 + request_count (listRepoWorkflows w (options w v))]"
  using paginate_events [of "options w v" 1 "listRepoWorkflows w (options w v)"]
  by (simp add: workflows_def)

lemma workflows_quiet:
  assumes "workflows w v = (r, evs)"
  shows "failures evs = []" "warnings evs = []" "outputs k evs = []" "requests evs = []"
  unfolding workflows_events [OF assms] by (simp_all add: readers_page_events)

lemma correlate_quiet:
  "failures (snd (correlate w r)) = []"
  "warnings (snd (correlate w r)) = []"
  "page_requests (snd (correlate w r)) = []"
  "outputs ''workflowId'' (snd (correlate w r)) = []"
  by (simp_all add: correlate_def Let_def split: sum.splits)

lemma correlate_error:
  "fst (correlate w r) = Inl e \<Longrightarrow> outputs k (snd (correlate w r)) = []"
  by (auto simp: correlate_def Let_def split: sum.splits if_splits)

lemma fixed_events:
  "failures (debug_events w c) = []" "warnings (debug_events w c) = []"
  "outputs k (debug_events w c) = []" "requests (debug_events w c) = []"
  "page_requests (debug_events w c) = []"
  "failures (dispatch_events w v f) = []" "warnings (dispatch_events w v f) = []"
  "outputs k (dispatch_events w v f) = []"
  "requests (dispatch_events w v f) = [(dispatch_route w f, params w v)]"
  "page_requests (dispatch_events w v f) = []"
  "failures (final_events r f) = []" "warnings (final_events r f) = []"
  "outputs ''workflowId'' (final_events r f) = [JNum (workflow_id f)]"
  "outputs ''runId'' (final_events r f) = []"
  "requests (final_events r f) = []"
  "page_requests (final_events r f) = []"
  by (simp_all add: debug_events_def dispatch_events_def final_events_def)

lemmas readers =
  failures_append outputs_append page_requests_append requests_append warnings_append
  readers_page_events fixed_events correlate_quiet

lemma run_body_cases:
  obtains
    (config) e where "inputs w = Inl e" "run_body w = (Inl e, [])"
  | (catalog) v e evs where "inputs w = Inr v" "workflows w v = (Inl e, evs)"
      "run_body w = (Inl e, evs)"
  | (missing) v c evs where "inputs w = Inr v" "workflows w v = (Inr c, evs)"
      "foundWorkflow (workflowRef w) c = None"
      "run_body w = (Inl (Error (not_found w)), evs @ debug_events w c)"
  | (rejected) v c evs f m where "inputs w = Inr v" "workflows w v = (Inr c, evs)"
      "foundWorkflow (workflowRef w) c = Some f" "dispatchResp w v f = Inl m"
      "run_body w = (Inl (RequestError m), evs @ debug_events w c @ dispatch_events w v f)"
  | (uncorrelated) v c evs f resp e evs3 where "inputs w = Inr v" "workflows w v = (Inr c, evs)"
      "foundWorkflow (workflowRef w) c = Some f" "dispatchResp w v f = Inr resp"
      "correlate w resp = (Inl e, evs3)"
      "run_body w = (Inl e, evs @ debug_events w c @ dispatch_events w v f @ evs3)"
  | (finished) v c evs f resp evs3 where "inputs w = Inr v" "workflows w v = (Inr c, evs)"
      "foundWorkflow (workflowRef w) c = Some f" "dispatchResp w v f = Inr resp"
      "correlate w resp = (Inr (), evs3)"
      "run_body w =
         (Inr (), evs @ debug_events w c @ dispatch_events w v f @ evs3 @ final_events resp f)"
proof (cases "inputs w")
  case (Inl e)
  then show ?thesis
    using config by (simp add: run_body_def)
next
  case v: (Inr v)
  obtain r evs where wf: "workflows w v = (r, evs)"
    by (cases "workflows w v")
  show ?thesis
  proof (cases r)
    case (Inl e)
    with v wf show ?thesis
      using catalog by (simp add: run_body_def)
  next
    case c: (Inr c)
    show ?thesis
    proof (cases "foundWorkflow (workflowRef w) c")
      case None
      with v wf c show ?thesis
        using missing by (simp add: run_body_def)
    next
      case f: (Some f)
      show ?thesis
      proof (cases "dispatchResp w v f")
        case (Inl m)
        with v wf c f show ?thesis
          using rejected by (simp add: run_body_def)
      next
        case resp: (Inr resp)
        obtain q evs3 where co: "correlate w resp = (q, evs3)"
          by (cases "correlate w resp")
        show ?thesis
        proof (cases q)
          case (Inl e)
          with v wf c f resp co show ?thesis
            using uncorrelated by (simp add: run_body_def)
        next
          case (Inr u)
          with v wf c f resp co show ?thesis
            using finished by (simp add: run_body_def)
        qed
      qed
    qed
  qed
qed

lemma run_body_quiet:
  "failures (snd (run_body w)) = [] \<and> warnings (snd (run_body w)) = []"
proof (cases w rule: run_body_cases)
  case (uncorrelated v c evs f resp e evs3)
  then show ?thesis
    using correlate_quiet [of w resp] by (simp add: readers workflows_quiet)
next
  case (finished v c evs f resp evs3)
  then show ?thesis
    using correlate_quiet [of w resp] by (simp add: readers workflows_quiet)
qed (simp_all add: readers workflows_quiet)

lemma run_body_error_outputs:
  "fst (run_body w) = Inl e \<Longrightarrow> outputs k (snd (run_body w)) = []"
proof (cases w rule: run_body_cases)
  case (uncorrelated v c evs f resp e evs3)
  then show ?thesis
    using correlate_error [of w resp e k] by (simp add: readers workflows_quiet)
qed (simp_all add: readers workflows_quiet)

lemma run_requests: "requests (run w) = requests (snd (run_body w))"
  by (cases "run_body w") (simp add: run_def readers split: sum.splits)

lemma run_page_requests: "page_requests (run w) = page_requests (snd (run_body w))"
  by (cases "run_body w") (simp add: run_def readers split: sum.splits)

lemma run_outputs: "outputs k (run w) = outputs k (snd (run_body w))"
  by (cases "run_body w") (simp add: run_def readers split: sum.splits)

lemma run_caught:
  "fst (run_body w) = Inl e \<Longrightarrow> endsWith (message e) ''a disabled workflow'' \<Longrightarrow>
   run w = Info (banner w) # snd (run_body w) @ [Warning ''Workflow is disabled, no action was taken'']"
  by (cases "run_body w") (simp add: run_def)

lemma run_failed:
  "fst (run_body w) = Inl e \<Longrightarrow> \<not> endsWith (message e) ''a disabled workflow'' \<Longrightarrow>
   run w = Info (banner w) # snd (run_body w) @ [SetFailed (message e)]"
  by (cases "run_body w") (simp add: run_def)

lemma run_finished:
  "fst (run_body w) = Inr u \<Longrightarrow> run w = Info (banner w) # snd (run_body w)"
  by (cases "run_body w") (simp add: run_def)

lemma correlate_skipped:
  "get_prop (resp_data r) ''status'' = Inr st \<Longrightarrow>
   get_prop (resp_data r) ''workflow_url'' = Inr u \<Longrightarrow>
   st \<noteq> JStr ''queued'' \<or> \<not> truthy u \<Longrightarrow>
   correlate w r =
     (Inr (), [ConsoleLog (''Workflow dispatch event was not successful. Status: '' @ to_string st)])"
  by (auto simp: correlate_def)

lemma correlate_read_failed:
  "get_prop (resp_data r) ''status'' = Inr (JStr ''queued'') \<Longrightarrow>
   get_prop (resp_data r) ''workflow_url'' = Inr u \<Longrightarrow> truthy u \<Longrightarrow>
   request w (''GET '' @ to_string u) None = Inl m \<Longrightarrow>
   correlate w r = (Inl (RequestError m), [Request (''GET '' @ to_string u) None])"
  by (simp add: correlate_def)

lemma correlate_read:
  "get_prop (resp_data r) ''status'' = Inr (JStr ''queued'') \<Longrightarrow>
   get_prop (resp_data r) ''workflow_url'' = Inr u \<Longrightarrow> truthy u \<Longrightarrow>
   request w (''GET '' @ to_string u) None = Inr rr \<Longrightarrow>
   get_prop (resp_data rr) ''id'' = Inr runId \<Longrightarrow>
   correlate w r =
     (Inr (),
      [Request (''GET '' @ to_string u) None,
       ConsoleLog (''Workflow run ID: '' @ to_string runId),
       SetOutput ''runId'' runId])"
  by (simp add: correlate_def)

lemma correlate_requests:
  "get_prop (resp_data r) ''status'' = Inr (JStr ''queued'') \<Longrightarrow>
   get_prop (resp_data r) ''workflow_url'' = Inr u \<Longrightarrow> truthy u \<Longrightarrow>
   requests (snd (correlate w r)) = [(''GET '' @ to_string u, None)]"
  by (simp add: correlate_def Let_def split: sum.splits)

lemma run_body_catalog_failed:
  "inputs w = Inr v \<Longrightarrow> workflows w v = (Inl e, evs) \<Longrightarrow> run_body w = (Inl e, evs)"
  by (simp add: run_body_def)

lemma run_body_missing:
  "inputs w = Inr v \<Longrightarrow> workflows w v = (Inr c, evs) \<Longrightarrow>
   foundWorkflow (workflowRef w) c = None \<Longrightarrow>
   run_body w = (Inl (Error (not_found w)), evs @ debug_events w c)"
  by (simp add: run_body_def)

lemma run_body_rejected:
  "inputs w = Inr v \<Longrightarrow> workflows w v = (Inr c, evs) \<Longrightarrow>
   foundWorkflow (workflowRef w) c = Some f \<Longrightarrow> dispatchResp w v f = Inl m \<Longrightarrow>
   run_body w = (Inl (RequestError m), evs @ debug_events w c @ dispatch_events w v f)"
  by (simp add: run_body_def)

lemma run_body_uncorrelated:
  "inputs w = Inr v \<Longrightarrow> workflows w v = (Inr c, evs) \<Longrightarrow>
   foundWorkflow (workflowRef w) c = Some f \<Longrightarrow> dispatchResp w v f = Inr resp \<Longrightarrow>
   correlate w resp = (Inl e, evs3) \<Longrightarrow>
   run_body w = (Inl e, evs @ debug_events w c @ dispatch_events w v f @ evs3)"
  by (simp add: run_body_def)

lemma run_body_finished:
  "inputs w = Inr v \<Longrightarrow> workflows w v = (Inr c, evs) \<Longrightarrow>
   foundWorkflow (workflowRef w) c = Some f \<Longrightarrow> dispatchResp w v f = Inr resp \<Longrightarrow>
   correlate w resp = (Inr (), evs3) \<Longrightarrow>
   run_body w =
     (Inr (), evs @ debug_events w c @ dispatch_events w v f @ evs3 @ final_events resp f)"
  by (simp add: run_body_def)

lemma run_body_dispatched:
  "inputs w = Inr v \<Longrightarrow> workflows w v = (Inr c, evs) \<Longrightarrow>
   foundWorkflow (workflowRef w) c = Some f \<Longrightarrow> dispatchResp w v f = Inr resp \<Longrightarrow>
   requests (snd (run_body w)) =
     (dispatch_route w f, params w v) # requests (snd (correlate w resp))"
  by (cases "correlate w resp")
     (simp add: run_body_def readers workflows_quiet split: sum.splits)

lemma run_of_error:
  "run_body w = (Inl e, evs) \<Longrightarrow> \<not> endsWith (message e) ''a disabled workflow'' \<Longrightarrow>
   run w = Info (banner w) # evs @ [SetFailed (message e)]"
  by (simp add: run_def)

lemma run_of_success:
  "run_body w = (Inr (), evs) \<Longrightarrow> run w = Info (banner w) # evs"
  by (simp add: run_def)

lemma endsWith_last:
  "endsWith (s @ [c]) t \<Longrightarrow> t \<noteq> [] \<Longrightarrow> last t = c"
  by (metis endsWith_suffix last_appendR last_snoc suffix_def)

lemma not_found_fatal: "\<not> endsWith (not_found w) ''a disabled workflow''"
proof
  assume "endsWith (not_found w) ''a disabled workflow''"
  then have "endsWith ((''Unable to find workflow '' @ quote @ workflowRef w @ quote @ '' in '' @
     interp (owner w) @ ''/'' @ interp (repo w) @ '' '' @ [CHR 0xF0, CHR 0x9F, CHR 0x98]) @ [CHR 0xA5])
     ''a disabled workflow''"
    by (simp add: not_found_def)
  then have "last ''a disabled workflow'' = CHR 0xA5"
    by (rule endsWith_last) simp
  then show False
    by simp
qed

lemma run_shape: "\<exists>ending. run w = Info (banner w) # snd (run_body w) @ ending"
  by (cases "run_body w") (simp add: run_def split: sum.splits)

lemma run_body_reaches_dispatch:
  assumes "inputs w = Inr v" and "workflows w v = (Inr c, evs)"
    and "foundWorkflow (workflowRef w) c = Some f"
  shows "\<exists>rest. snd (run_body w) = evs @ debug_events w c @ dispatch_events w v f @ rest"
proof (cases "dispatchResp w v f")
  case (Inl m)
  from run_body_rejected [OF assms this] show ?thesis
    by simp
next
  case (Inr resp)
  obtain q evs3 where co: "correlate w resp = (q, evs3)"
    by (cases "correlate w resp")
  show ?thesis
  proof (cases q)
    case (Inl e)
    with co run_body_uncorrelated [OF assms Inr, of e evs3] show ?thesis
      by simp
  next
    case (Inr u)
    with co run_body_finished [OF assms \<open>dispatchResp w v f = Inr resp\<close>, of evs3] show ?thesis
      by simp
  qed
qed

lemma run_reaches_dispatch:
  assumes "inputs w = Inr v" and "workflows w v = (Inr c, evs)"
    and "foundWorkflow (workflowRef w) c = Some f"
  shows "\<exists>rest. run w = Info (banner w) # evs @ debug_events w c @ dispatch_events w v f @ rest"
proof -
  obtain rest where "snd (run_body w) = evs @ debug_events w c @ dispatch_events w v f @ rest"
    using run_body_reaches_dispatch [OF assms] by blast
  moreover obtain ending where "run w = Info (banner w) # snd (run_body w) @ ending"
    using run_shape by blast
  ultimately have "run w = Info (banner w) # evs @ debug_events w c @ dispatch_events w v f @ (rest @ ending)"
    by simp
  then show ?thesis
    by blast
qed

lemma get_prop_error: "get_prop x k = Inl e \<Longrightarrow> \<exists>m. e = TypeError m"
  by (cases x) auto

lemma correlate_error_kind:
  "correlate w r = (Inl e, evs) \<Longrightarrow> (\<exists>m. e = RequestError m) \<or> (\<exists>m. e = TypeError m)"
  by (auto simp: correlate_def Let_def split: sum.splits if_splits dest: get_prop_error)

text \<open>
  A dispatch response with no body at all (\<^verbatim>\<open>undefined\<close> or \<^verbatim>\<open>null\<close>) has no status to
  read: line 72 throws a TypeError before any further event.
\<close>

lemma correlate_no_body:
  "resp_data r = JUndefined \<or> resp_data r = JNull \<Longrightarrow> \<exists>m. correlate w r = (Inl (TypeError m), [])"
  by (auto simp: correlate_def)

text \<open>The page requests of a whole run are those of the catalog fetch, each page once.\<close>

lemma run_pages:
  assumes "inputs w = Inr v"
  shows "page_requests (run w) = [1 ..< 1 + request_count (listRepoWorkflows w (options w v))]"
proof -
  obtain r evs where wf: "workflows w v = (r, evs)"
    by (cases "workflows w v")
  have pages: "page_requests evs = [1 ..< 1 + request_count (listRepoWorkflows w (options w v))]"
    unfolding workflows_events [OF wf] by (simp add: readers_page_events)
  have "page_requests (snd (run_body w)) = page_requests evs"
  proof (cases w rule: run_body_cases)
    case (uncorrelated v' c evs' f resp e evs3)
    then show ?thesis
      using assms wf correlate_quiet(3) [of w resp] by (simp add: readers)
  next
    case (finished v' c evs' f resp evs3)
    then show ?thesis
      using assms wf correlate_quiet(3) [of w resp] by (simp add: readers)
  qed (use assms wf in \<open>simp_all add: readers\<close>)
  with pages show ?thesis
    by (simp add: run_page_requests)
qed

lemma type_error_fatal:
  "get_prop x k = Inl e \<Longrightarrow> \<not> endsWith (message e) ''a disabled workflow''"
proof
  assume g: "get_prop x k = Inl e" and e: "endsWith (message e) ''a disabled workflow''"
  from g obtain pre where "message e = pre @ [CHR '')'']"
    by (cases x) auto
  with e have "last ''a disabled workflow'' = CHR '')''"
    using endsWith_last by fastforce
  then show False
    by simp
qed

lemma run_without_body:
  assumes "inputs w = Inr v" and "workflows w v = (Inr c, evs)"
    and "foundWorkflow (workflowRef w) c = Some f" and "dispatchResp w v f = Inr resp"
    and "get_prop (resp_data resp) ''status'' = Inl e"
  shows "run w = Info (banner w) # evs @ debug_events w c @ dispatch_events w v f @ [SetFailed (message e)]"
    and "failures (run w) = [message e]"
    and "outputs k (run w) = []"
    and "requests (run w) = [(dispatch_route w f, params w v)]"
proof -
  have co: "correlate w resp = (Inl e, [])"
    using assms(5) by (simp add: correlate_def)
  have body: "run_body w = (Inl e, evs @ debug_events w c @ dispatch_events w v f)"
    using run_body_uncorrelated [OF assms(1-4) co] by simp
  show trace: "run w = Info (banner w) # evs @ debug_events w c @ dispatch_events w v f @ [SetFailed (message e)]"
    using run_of_error [OF body type_error_fatal [OF assms(5)]] by simp
  show "failures (run w) = [message e]" "outputs k (run w) = []"
      "requests (run w) = [(dispatch_route w f, params w v)]"
    by (simp_all add: trace readers workflows_quiet [OF assms(2)])
qed

lemmas scenario_defs =
  build_def deploy_def parse_example_def queued_def run_555_def unconfirmed_def no_content_def
  disabled_message_def
  provider_def scenario_def

lemmas run_defs =
  run_def run_body_def correlate_def inputs_def workflows_def options_def params_def
  dispatchResp_def foundWorkflow_def matches_def workflowRef_def ref_def owner_def repo_def
  owner_repo_def dispatch_route_def debug_events_def dispatch_events_def final_events_def
  banner_def not_found_def found_line_def calling_line_def status_line_def

lemmas string_defs =
  toString_def string_of_nat.simps digit_char_def endsWith_def quote_def

lemma scenario_inputs_empty: "inputs (scenario r [] cat a rd) = Inr (JObj [])"
  by (simp add: inputs_def scenario_def)

lemma scenario_options:
  "options (scenario r i cat a rd) v =
     \<lparr>o_owner = Some ''octo'', o_repo = Some ''demo'', o_ref = ''main'', o_inputs = v\<rparr>"
  by (simp add: options_def owner_def repo_def owner_repo_def ref_def scenario_def)

lemma scenario_workflows:
  "workflows (scenario r i (LastPage [build, deploy]) a rd) v =
     (Inr [build, deploy],
      [PageRequest \<lparr>o_owner = Some ''octo'', o_repo = Some ''demo'', o_ref = ''main'', o_inputs = v\<rparr> 1])"
  by (simp add: workflows_def scenario_options) (simp add: scenario_def)

lemma scenario_workflows_failed:
  "workflows (scenario r i (FailedPage m) a rd) v =
     (Inl (RequestError m),
      [PageRequest \<lparr>o_owner = Some ''octo'', o_repo = Some ''demo'', o_ref = ''main'', o_inputs = v\<rparr> 1])"
  by (simp add: workflows_def scenario_options) (simp add: scenario_def)

lemma scenario_found:
  "foundWorkflow (workflowRef (scenario ''deploy.yml'' i cat a rd)) [build, deploy] = Some deploy"
  by (simp add: foundWorkflow_def matches_def workflowRef_def scenario_defs string_defs)

lemma scenario_route:
  "dispatch_route (scenario r i cat a rd) deploy = ''POST /repos/octo/demo/actions/workflows/2/dispatches''"
  by (simp add: dispatch_route_def owner_def repo_def owner_repo_def scenario_defs string_defs)

lemma scenario_route_build:
  "dispatch_route (scenario r i cat a rd) build = ''POST /repos/octo/demo/actions/workflows/1/dispatches''"
  by (simp add: dispatch_route_def owner_def repo_def owner_repo_def scenario_defs string_defs)

lemma scenario_params:
  "params (scenario r i cat a rd) v = Some \<lparr>p_ref = ''main'', p_inputs = v\<rparr>"
  by (simp add: params_def ref_def scenario_def)

lemma scenario_dispatchResp: "dispatchResp (scenario r i cat a rd) v deploy = a"
  by (simp add: dispatchResp_def scenario_route) (simp add: scenario_def provider_def)

lemma deploy_id: "workflow_id deploy = 2"
  by (simp add: deploy_def)

lemma scenario_read: "request (scenario r i cat a rd) (''GET '' @ url) None = rd"
  by (simp add: scenario_def provider_def)

lemma matches_empty: "matches [] x"
  by (simp add: matches_def endsWith_Nil)

subsection \<open>The matcher\<close>

text \<open>
  C1. For every catalog and every reference \<open>r\<close>: if some entry has its name equal to \<open>r\<close>,
  or the string form of its id equal to \<open>r\<close>, or a path that ends with \<open>r\<close>, the matcher
  returns the first such entry in catalog order (an entry at a position before which no
  entry satisfies any of the three rules); if no entry satisfies any of the rules, it
  returns nothing. "Ends with" is stated with \<^const>\<open>suffix\<close>.
\<close>

theorem matcher_first_match:
  "((\<exists>x \<in> set catalog. workflow_name x = r \<or> toString (workflow_id x) = r \<or> suffix r (workflow_path x)) \<longrightarrow>
      (\<exists>i < length catalog.
         foundWorkflow r catalog = Some (catalog ! i) \<and>
         (workflow_name (catalog ! i) = r \<or> toString (workflow_id (catalog ! i)) = r \<or>
          suffix r (workflow_path (catalog ! i))) \<and>
         (\<forall>j < i. \<not> (workflow_name (catalog ! j) = r \<or> toString (workflow_id (catalog ! j)) = r \<or>
                      suffix r (workflow_path (catalog ! j)))))) \<and>
   ((\<forall>x \<in> set catalog. \<not> (workflow_name x = r \<or> toString (workflow_id x) = r \<or> suffix r (workflow_path x))) \<longrightarrow>
      foundWorkflow r catalog = None)"
proof -
  have m: "matches r x = (workflow_name x = r \<or> toString (workflow_id x) = r \<or> suffix r (workflow_path x))" for x
    by (simp add: matches_def endsWith_suffix)
  show ?thesis
  proof (intro conjI impI)
    assume "\<exists>x \<in> set catalog. workflow_name x = r \<or> toString (workflow_id x) = r \<or> suffix r (workflow_path x)"
    then have "\<exists>x. x \<in> set catalog \<and> matches r x"
      by (auto simp: m)
    then obtain y where "List.find (matches r) catalog = Some y"
      by (metis find_None_iff not_Some_eq)
    then obtain i where "i < length catalog" "matches r (catalog ! i)" "y = catalog ! i"
        "\<forall>j < i. \<not> matches r (catalog ! j)"
      by (auto simp: find_Some_iff)
    with \<open>List.find (matches r) catalog = Some y\<close>
    show "\<exists>i < length catalog.
         foundWorkflow r catalog = Some (catalog ! i) \<and>
         (workflow_name (catalog ! i) = r \<or> toString (workflow_id (catalog ! i)) = r \<or>
          suffix r (workflow_path (catalog ! i))) \<and>
         (\<forall>j < i. \<not> (workflow_name (catalog ! j) = r \<or> toString (workflow_id (catalog ! j)) = r \<or>
                      suffix r (workflow_path (catalog ! j))))"
      unfolding foundWorkflow_def m [symmetric] by blast
  next
    assume "\<forall>x \<in> set catalog. \<not> (workflow_name x = r \<or> toString (workflow_id x) = r \<or> suffix r (workflow_path x))"
    then show "foundWorkflow r catalog = None"
      unfolding foundWorkflow_def find_None_iff m by blast
  qed
qed


theorem matcher_first_match_witness:
  "(\<exists>i < length [build, deploy].
      foundWorkflow ''deploy.yml'' [build, deploy] = Some ([build, deploy] ! i)) \<and>
   foundWorkflow ''nonexistent'' [build, deploy] = None"
proof -
  have s: "suffix r p = endsWith p r" for r p
    by (simp add: endsWith_suffix)
  have h: "\<exists>x \<in> set [build, deploy]. workflow_name x = ''deploy.yml'' \<or>
      toString (workflow_id x) = ''deploy.yml'' \<or> suffix ''deploy.yml'' (workflow_path x)"
    by (simp add: s scenario_defs string_defs)
  have n: "\<forall>x \<in> set [build, deploy]. \<not> (workflow_name x = ''nonexistent'' \<or>
      toString (workflow_id x) = ''nonexistent'' \<or> suffix ''nonexistent'' (workflow_path x))"
    by (simp add: s scenario_defs string_defs)
  show ?thesis
    using h n matcher_first_match [of "[build, deploy]" "''deploy.yml''"]
      matcher_first_match [of "[build, deploy]" "''nonexistent''"]
    by blast
qed

subsection \<open>The catalog fetch\<close>

text \<open>
  C8. For every paginated catalog of N pages (none of them failing), the catalog fetch
  returns the concatenation of all pages in the order the provider returned them, as one
  sequence, and makes exactly N page requests: its events are the page requests numbered
  \<open>n\<close> to \<open>n + N - 1\<close>, and nothing else.
\<close>

theorem paginate_all_pages:
  "complete ps \<Longrightarrow>
   paginate opts n ps =
     (Inr (concat (pages ps)), map (PageRequest opts) [n ..< n + length (pages ps)])"
  using paginate_complete [of ps opts n] paginate_events [of opts n ps]
  by (simp add: request_count_complete prod_eq_iff)

theorem paginate_all_pages_witness:
  "complete (NextPage [build] (LastPage [deploy])) \<and>
   paginate \<lparr>o_owner = Some ''octo'', o_repo = Some ''demo'', o_ref = ''main'', o_inputs = JObj []\<rparr> 1
       (NextPage [build] (LastPage [deploy])) =
     (Inr [build, deploy],
      [PageRequest \<lparr>o_owner = Some ''octo'', o_repo = Some ''demo'', o_ref = ''main'', o_inputs = JObj []\<rparr> 1,
       PageRequest \<lparr>o_owner = Some ''octo'', o_repo = Some ''demo'', o_ref = ''main'', o_inputs = JObj []\<rparr> 2])"
proof -
  have c: "complete (NextPage [build] (LastPage [deploy]))"
    by simp
  have "[1 ..< 1 + length (pages (NextPage [build] (LastPage [deploy])))] = [1, 2]"
    by (simp add: upt_conv_Cons)
  with c paginate_all_pages [OF c,
      of "\<lparr>o_owner = Some ''octo'', o_repo = Some ''demo'', o_ref = ''main'', o_inputs = JObj []\<rparr>" 1]
  show ?thesis
    by simp
qed

subsection \<open>The disabled workflow\<close>

text \<open>
  C2. For every error raised during the invocation whose message ends with the phrase
  \<^verbatim>\<open>a disabled workflow\<close>, the invocation ends without the failure signal, with the one
  warning as its only notice, and neither the output \<^verbatim>\<open>runId\<close> nor the output
  \<^verbatim>\<open>workflowId\<close> is set.
\<close>

theorem disabled_workflow_is_benign:
  assumes "fst (run_body w) = Inl e" and "endsWith (message e) ''a disabled workflow''"
  shows "run w = Info (banner w) # snd (run_body w) @
             [Warning ''Workflow is disabled, no action was taken''] \<and>
         failures (run w) = [] \<and>
         warnings (run w) = [''Workflow is disabled, no action was taken''] \<and>
         outputs ''runId'' (run w) = [] \<and>
         outputs ''workflowId'' (run w) = []"
proof -
  have trace: "run w = Info (banner w) # snd (run_body w) @
      [Warning ''Workflow is disabled, no action was taken'']"
    by (rule run_caught [OF assms])
  have "failures (run w) = []" "warnings (run w) = [''Workflow is disabled, no action was taken'']"
    using run_body_quiet [of w] by (simp_all add: trace failures_append warnings_append)
  moreover have "outputs k (run w) = []" for k
    using run_body_error_outputs [OF assms(1)] by (simp add: run_outputs)
  ultimately show ?thesis
    using trace by simp
qed

theorem disabled_workflow_is_benign_witness:
  "fst (run_body (scenario ''deploy.yml'' [] (LastPage [build, deploy]) (Inl disabled_message) (Inr run_555))) =
     Inl (RequestError disabled_message) \<and>
   endsWith (message (RequestError disabled_message)) ''a disabled workflow'' \<and>
   failures (run (scenario ''deploy.yml'' [] (LastPage [build, deploy]) (Inl disabled_message) (Inr run_555))) = [] \<and>
   outputs ''runId'' (run (scenario ''deploy.yml'' [] (LastPage [build, deploy]) (Inl disabled_message) (Inr run_555))) = [] \<and>
   outputs ''workflowId'' (run (scenario ''deploy.yml'' [] (LastPage [build, deploy]) (Inl disabled_message) (Inr run_555))) = []"
proof -
  have raised:
    "fst (run_body (scenario ''deploy.yml'' [] (LastPage [build, deploy]) (Inl disabled_message) (Inr run_555))) =
       Inl (RequestError disabled_message)"
    by (simp add: run_defs scenario_defs string_defs)
  have phrase: "endsWith (message (RequestError disabled_message)) ''a disabled workflow''"
    by (simp add: scenario_defs string_defs)
  from disabled_workflow_is_benign [OF raised phrase] raised phrase show ?thesis
    by blast
qed

subsection \<open>Correlating the run\<close>

text \<open>
  C4. For every dispatch response whose status is \<^verbatim>\<open>queued\<close> and whose run-collection URL
  is a non-empty string, the invocation issues, after the dispatch, exactly one follow-up
  read, addressed to that URL; and when that read is answered with a body, the output
  \<^verbatim>\<open>runId\<close> is set to the \<^verbatim>\<open>id\<close> found in it (then \<^verbatim>\<open>workflowId\<close> is set too, and nothing
  fails).
\<close>

theorem queued_dispatch_is_correlated:
  assumes "inputs w = Inr v" and "workflows w v = (Inr c, evs)"
    and "foundWorkflow (workflowRef w) c = Some f" and "dispatchResp w v f = Inr resp"
    and "get_prop (resp_data resp) ''status'' = Inr (JStr ''queued'')"
    and "get_prop (resp_data resp) ''workflow_url'' = Inr (JStr url)" and "url \<noteq> []"
  shows "requests (run w) = [(dispatch_route w f, params w v), (''GET '' @ url, None)] \<and>
         (\<forall>rr runId.
            request w (''GET '' @ url) None = Inr rr \<and> get_prop (resp_data rr) ''id'' = Inr runId \<longrightarrow>
            run w = Info (banner w) # evs @ debug_events w c @ dispatch_events w v f @
                    [Request (''GET '' @ url) None,
                     ConsoleLog (''Workflow run ID: '' @ to_string runId),
                     SetOutput ''runId'' runId] @ final_events resp f \<and>
            outputs ''runId'' (run w) = [runId] \<and>
            outputs ''workflowId'' (run w) = [JNum (workflow_id f)] \<and>
            failures (run w) = [])"
proof -
  have t: "truthy (JStr url)"
    using assms(7) by simp
  have "requests (snd (correlate w resp)) = [(''GET '' @ url, None)]"
    using correlate_requests [OF assms(5,6) t] by simp
  then have reqs: "requests (run w) = [(dispatch_route w f, params w v), (''GET '' @ url, None)]"
    using run_body_dispatched [OF assms(1-4)] by (simp add: run_requests)
  have "run w = Info (banner w) # evs @ debug_events w c @ dispatch_events w v f @
                    [Request (''GET '' @ url) None,
                     ConsoleLog (''Workflow run ID: '' @ to_string runId),
                     SetOutput ''runId'' runId] @ final_events resp f \<and>
            outputs ''runId'' (run w) = [runId] \<and>
            outputs ''workflowId'' (run w) = [JNum (workflow_id f)] \<and>
            failures (run w) = []"
    if "request w (''GET '' @ url) None = Inr rr" and "get_prop (resp_data rr) ''id'' = Inr runId"
    for rr runId
  proof -
    have "correlate w resp =
       (Inr (), [Request (''GET '' @ url) None,
                 ConsoleLog (''Workflow run ID: '' @ to_string runId),
                 SetOutput ''runId'' runId])"
      using correlate_read [OF assms(5,6) t, of w rr runId] that by simp
    from run_body_finished [OF assms(1-4) this]
    have trace: "run w = Info (banner w) # evs @ debug_events w c @ dispatch_events w v f @
                    [Request (''GET '' @ url) None,
                     ConsoleLog (''Workflow run ID: '' @ to_string runId),
                     SetOutput ''runId'' runId] @ final_events resp f"
      by (simp add: run_of_success)
    have "outputs ''runId'' (run w) = [runId]" "outputs ''workflowId'' (run w) = [JNum (workflow_id f)]"
        "failures (run w) = []"
      by (simp_all add: trace readers workflows_quiet [OF assms(2)])
    with trace show ?thesis
      by simp
  qed
  with reqs show ?thesis
    by blast
qed

theorem queued_dispatch_is_correlated_witness:
  "requests (run (scenario ''deploy.yml'' [] (LastPage [build, deploy]) (Inr queued) (Inr run_555))) =
     [(''POST /repos/octo/demo/actions/workflows/2/dispatches'', Some \<lparr>p_ref = ''main'', p_inputs = JObj []\<rparr>),
      (''GET https://api.example/runs-collection'', None)] \<and>
   outputs ''runId'' (run (scenario ''deploy.yml'' [] (LastPage [build, deploy]) (Inr queued) (Inr run_555))) =
     [JNum 555] \<and>
   outputs ''workflowId'' (run (scenario ''deploy.yml'' [] (LastPage [build, deploy]) (Inr queued) (Inr run_555))) =
     [JNum 2]"
proof -
  let ?w = "scenario ''deploy.yml'' [] (LastPage [build, deploy]) (Inr queued) (Inr run_555)"
  have status: "get_prop (resp_data queued) ''status'' = Inr (JStr ''queued'')"
    by (simp add: queued_def)
  have url: "get_prop (resp_data queued) ''workflow_url'' = Inr (JStr ''https://api.example/runs-collection'')"
    by (simp add: queued_def)
  have given: "''https://api.example/runs-collection'' \<noteq> []"
    by simp
  have read: "request ?w (''GET '' @ ''https://api.example/runs-collection'') None = Inr run_555 \<and>
      get_prop (resp_data run_555) ''id'' = Inr (JNum 555)"
    by (simp add: scenario_def provider_def run_555_def)
  note c4 = queued_dispatch_is_correlated [OF scenario_inputs_empty scenario_workflows scenario_found
      scenario_dispatchResp status url given]
  from c4 have "requests (run ?w) =
      [(dispatch_route ?w deploy, params ?w (JObj [])), (''GET '' @ ''https://api.example/runs-collection'', None)]"
    by blast
  moreover from c4 read have "outputs ''runId'' (run ?w) = [JNum 555]"
      "outputs ''workflowId'' (run ?w) = [JNum (workflow_id deploy)]"
    by blast+
  ultimately show ?thesis
    by (simp add: scenario_route scenario_params deploy_id)
qed

text \<open>
  C5. For every dispatch response whose status is not \<^verbatim>\<open>queued\<close>, or whose run-collection
  URL is absent or empty, the invocation is to make no follow-up read, end without the
  failure signal, log the status the provider gave, leave \<^verbatim>\<open>runId\<close> unset and set
  \<^verbatim>\<open>workflowId\<close> to the id of the matched workflow. The code does not do this for a
  response that has no body (HTTP 204, \<^verbatim>\<open>data\<close> undefined), whose URL is absent and whose
  status is not \<^verbatim>\<open>queued\<close>: line 72 reads \<^verbatim>\<open>status\<close> of \<^verbatim>\<open>undefined\<close> and throws, the
  \<^verbatim>\<open>catch\<close> reports the failure signal with the TypeError's message, and line 90 is never
  reached, so \<^verbatim>\<open>workflowId\<close> is not set. The dispatch is the only request.
\<close>

theorem dispatch_without_body_fails:
  "dispatchResp (scenario ''deploy.yml'' [] (LastPage [build, deploy]) (Inr no_content) (Inr run_555))
       (JObj []) deploy = Inr no_content \<and>
   failures (run (scenario ''deploy.yml'' [] (LastPage [build, deploy]) (Inr no_content) (Inr run_555))) =
     [''Cannot read properties of undefined (reading '' @ quote @ ''status'' @ quote @ '')''] \<and>
   outputs ''workflowId'' (run (scenario ''deploy.yml'' [] (LastPage [build, deploy]) (Inr no_content) (Inr run_555))) = [] \<and>
   outputs ''runId'' (run (scenario ''deploy.yml'' [] (LastPage [build, deploy]) (Inr no_content) (Inr run_555))) = [] \<and>
   requests (run (scenario ''deploy.yml'' [] (LastPage [build, deploy]) (Inr no_content) (Inr run_555))) =
     [(''POST /repos/octo/demo/actions/workflows/2/dispatches'', Some \<lparr>p_ref = ''main'', p_inputs = JObj []\<rparr>)]"
proof -
  let ?w = "scenario ''deploy.yml'' [] (LastPage [build, deploy]) (Inr no_content) (Inr run_555)"
  have thrown: "get_prop (resp_data no_content) ''status'' =
      Inl (TypeError (''Cannot read properties of undefined (reading '' @ quote @ ''status'' @ quote @ '')''))"
    by (simp add: no_content_def)
  note r = run_without_body [OF scenario_inputs_empty scenario_workflows scenario_found
      scenario_dispatchResp thrown]
  have "failures (run ?w) =
      [''Cannot read properties of undefined (reading '' @ quote @ ''status'' @ quote @ '')'']"
    using r(2) by simp
  moreover have "requests (run ?w) =
      [(''POST /repos/octo/demo/actions/workflows/2/dispatches'', Some \<lparr>p_ref = ''main'', p_inputs = JObj []\<rparr>)]"
    using r(4) by (simp add: scenario_route scenario_params)
  ultimately show ?thesis
    using r(3) by (simp add: scenario_dispatchResp)
qed

text \<open>
  With a body to read, the \<^verbatim>\<open>else\<close> branch of lines 83-85 does what is asked: for every
  dispatch response whose body has a status other than \<^verbatim>\<open>queued\<close>, or a run-collection
  URL that is absent or empty (or falsy in any other way), the dispatch is the only
  request, the invocation ends without the failure signal, logs the status the provider
  gave, does not set \<^verbatim>\<open>runId\<close>, and sets \<^verbatim>\<open>workflowId\<close> to the id of the matched workflow.
\<close>

theorem unconfirmed_dispatch_succeeds:
  assumes "inputs w = Inr v" and "workflows w v = (Inr c, evs)"
    and "foundWorkflow (workflowRef w) c = Some f" and "dispatchResp w v f = Inr resp"
    and "get_prop (resp_data resp) ''status'' = Inr st"
    and "get_prop (resp_data resp) ''workflow_url'' = Inr u"
    and "st \<noteq> JStr ''queued'' \<or> \<not> truthy u"
  shows "run w = Info (banner w) # evs @ debug_events w c @ dispatch_events w v f @
           [ConsoleLog (''Workflow dispatch event was not successful. Status: '' @ to_string st)] @
           final_events resp f \<and>
         requests (run w) = [(dispatch_route w f, params w v)] \<and>
         failures (run w) = [] \<and>
         outputs ''runId'' (run w) = [] \<and>
         outputs ''workflowId'' (run w) = [JNum (workflow_id f)]"
proof -
  note co = correlate_skipped [OF assms(5-7), of w]
  from run_body_finished [OF assms(1-4) co]
  have trace: "run w = Info (banner w) # evs @ debug_events w c @ dispatch_events w v f @
           [ConsoleLog (''Workflow dispatch event was not successful. Status: '' @ to_string st)] @
           final_events resp f"
    by (simp add: run_of_success)
  have "requests (run w) = [(dispatch_route w f, params w v)]" "failures (run w) = []"
      "outputs ''runId'' (run w) = []" "outputs ''workflowId'' (run w) = [JNum (workflow_id f)]"
    by (simp_all add: trace readers workflows_quiet [OF assms(2)])
  with trace show ?thesis
    by simp
qed

theorem unconfirmed_dispatch_succeeds_witness:
  "get_prop (resp_data unconfirmed) ''workflow_url'' = Inr JUndefined \<and>
   requests (run (scenario ''deploy.yml'' [] (LastPage [build, deploy]) (Inr unconfirmed) (Inr run_555))) =
     [(''POST /repos/octo/demo/actions/workflows/2/dispatches'', Some \<lparr>p_ref = ''main'', p_inputs = JObj []\<rparr>)] \<and>
   failures (run (scenario ''deploy.yml'' [] (LastPage [build, deploy]) (Inr unconfirmed) (Inr run_555))) = [] \<and>
   outputs ''runId'' (run (scenario ''deploy.yml'' [] (LastPage [build, deploy]) (Inr unconfirmed) (Inr run_555))) = [] \<and>
   outputs ''workflowId'' (run (scenario ''deploy.yml'' [] (LastPage [build, deploy]) (Inr unconfirmed) (Inr run_555))) =
     [JNum 2]"
proof -
  let ?w = "scenario ''deploy.yml'' [] (LastPage [build, deploy]) (Inr unconfirmed) (Inr run_555)"
  have status: "get_prop (resp_data unconfirmed) ''status'' = Inr (JStr ''queued'')"
    by (simp add: unconfirmed_def)
  have url: "get_prop (resp_data unconfirmed) ''workflow_url'' = Inr JUndefined"
    by (simp add: unconfirmed_def)
  have absent: "JStr ''queued'' \<noteq> JStr ''queued'' \<or> \<not> truthy JUndefined"
    by simp
  note c5 = unconfirmed_dispatch_succeeds [OF scenario_inputs_empty scenario_workflows scenario_found
      scenario_dispatchResp status url absent]
  from c5 have "requests (run ?w) = [(dispatch_route ?w deploy, params ?w (JObj []))]"
      "failures (run ?w) = []" "outputs ''runId'' (run ?w) = []"
      "outputs ''workflowId'' (run ?w) = [JNum (workflow_id deploy)]"
    by blast+
  with url show ?thesis
    by (simp add: scenario_route scenario_params deploy_id)
qed

subsection \<open>Fatal errors\<close>

text \<open>
  C3, as stated, fails: the \<^verbatim>\<open>catch\<close> tests the message of every error, not only of a
  rejected dispatch. Here the dispatch is accepted (\<^verbatim>\<open>queued\<close>, with a URL) and the read of
  the run fails with a message that ends with \<^verbatim>\<open>a disabled workflow\<close>: the invocation ends
  with the warning and without the failure signal.
\<close>

theorem swallowed_read_failure:
  "dispatchResp (scenario ''deploy.yml'' [] (LastPage [build, deploy]) (Inr queued)
       (Inl ''Cannot list the runs of a disabled workflow'')) (JObj []) deploy = Inr queued \<and>
   request (scenario ''deploy.yml'' [] (LastPage [build, deploy]) (Inr queued)
       (Inl ''Cannot list the runs of a disabled workflow''))
     ''GET https://api.example/runs-collection'' None =
     Inl ''Cannot list the runs of a disabled workflow'' \<and>
   fst (run_body (scenario ''deploy.yml'' [] (LastPage [build, deploy]) (Inr queued)
       (Inl ''Cannot list the runs of a disabled workflow''))) =
     Inl (RequestError ''Cannot list the runs of a disabled workflow'') \<and>
   failures (run (scenario ''deploy.yml'' [] (LastPage [build, deploy]) (Inr queued)
       (Inl ''Cannot list the runs of a disabled workflow''))) = [] \<and>
   warnings (run (scenario ''deploy.yml'' [] (LastPage [build, deploy]) (Inr queued)
       (Inl ''Cannot list the runs of a disabled workflow''))) =
     [''Workflow is disabled, no action was taken'']"
proof -
  let ?m = "''Cannot list the runs of a disabled workflow''"
  let ?w = "scenario ''deploy.yml'' [] (LastPage [build, deploy]) (Inr queued) (Inl ?m)"
  have status: "get_prop (resp_data queued) ''status'' = Inr (JStr ''queued'')"
    by (simp add: queued_def)
  have url: "get_prop (resp_data queued) ''workflow_url'' = Inr (JStr ''https://api.example/runs-collection'')"
    by (simp add: queued_def)
  have read: "request ?w (''GET '' @ to_string (JStr ''https://api.example/runs-collection'')) None = Inl ?m"
    by (simp add: scenario_def provider_def)
  have co: "correlate ?w queued =
      (Inl (RequestError ?m), [Request (''GET '' @ to_string (JStr ''https://api.example/runs-collection'')) None])"
    by (rule correlate_read_failed [OF status url _ read]) simp
  have body: "fst (run_body ?w) = Inl (RequestError ?m)"
    using run_body_uncorrelated [OF scenario_inputs_empty scenario_workflows scenario_found
        scenario_dispatchResp co]
    by simp
  have phrase: "endsWith (message (RequestError ?m)) ''a disabled workflow''"
    by (simp add: endsWith_def)
  have "failures (run ?w) = []" "warnings (run ?w) = [''Workflow is disabled, no action was taken'']"
    using run_body_quiet [of ?w]
    by (simp_all add: run_caught [OF body phrase] failures_append warnings_append)
  then show ?thesis
    using body read by (simp add: scenario_dispatchResp)
qed

text \<open>
  C3, amended. For every failing network call (a page request of the catalog, the dispatch
  request, the read of the run) whose error message does not end with
  \<^verbatim>\<open>a disabled workflow\<close>, the invocation reports the failure signal once, with that message
  unmodified, and the failing call is the last request: nothing is retried, no page is
  requested twice. An error thrown in the body is turned into success exactly when its
  message ends with \<^verbatim>\<open>a disabled workflow\<close>, whichever call raised it.
\<close>

theorem network_failure_is_reported:
  "(inputs w = Inr v \<and> workflows w v = (Inl (RequestError m), evs) \<and>
    \<not> endsWith m ''a disabled workflow'' \<longrightarrow>
      run w = Info (banner w) # evs @ [SetFailed m] \<and>
      failures (run w) = [m] \<and> requests (run w) = [] \<and> distinct (page_requests (run w))) \<and>
   (inputs w = Inr v \<and> workflows w v = (Inr c, evs) \<and> foundWorkflow (workflowRef w) c = Some f \<and>
    dispatchResp w v f = Inl m \<and> \<not> endsWith m ''a disabled workflow'' \<longrightarrow>
      run w = Info (banner w) # evs @ debug_events w c @ dispatch_events w v f @ [SetFailed m] \<and>
      failures (run w) = [m] \<and> requests (run w) = [(dispatch_route w f, params w v)]) \<and>
   (inputs w = Inr v \<and> workflows w v = (Inr c, evs) \<and> foundWorkflow (workflowRef w) c = Some f \<and>
    dispatchResp w v f = Inr resp \<and>
    get_prop (resp_data resp) ''status'' = Inr (JStr ''queued'') \<and>
    get_prop (resp_data resp) ''workflow_url'' = Inr u \<and> truthy u \<and>
    request w (''GET '' @ to_string u) None = Inl m \<and> \<not> endsWith m ''a disabled workflow'' \<longrightarrow>
      run w = Info (banner w) # evs @ debug_events w c @ dispatch_events w v f @
              [Request (''GET '' @ to_string u) None, SetFailed m] \<and>
      failures (run w) = [m] \<and>
      requests (run w) = [(dispatch_route w f, params w v), (''GET '' @ to_string u, None)]) \<and>
   (fst (run_body w) = Inl e \<longrightarrow>
      (failures (run w) = [] \<longleftrightarrow> endsWith (message e) ''a disabled workflow'') \<and>
      (\<not> endsWith (message e) ''a disabled workflow'' \<longrightarrow> failures (run w) = [message e]))"
proof (intro conjI impI; (elim conjE)?)
  assume a: "inputs w = Inr v" "workflows w v = (Inl (RequestError m), evs)"
    "\<not> endsWith m ''a disabled workflow''"
  have body: "run_body w = (Inl (RequestError m), evs)"
    by (rule run_body_catalog_failed [OF a(1,2)])
  then show trace: "run w = Info (banner w) # evs @ [SetFailed m]"
    using run_of_error [OF body] a(3) by simp
  show "failures (run w) = [m]" "requests (run w) = []"
    by (simp_all add: trace readers workflows_quiet [OF a(2)])
  show "distinct (page_requests (run w))"
    unfolding trace workflows_events [OF a(2)] by (simp add: readers)
next
  assume a: "inputs w = Inr v" "workflows w v = (Inr c, evs)" "foundWorkflow (workflowRef w) c = Some f"
    "dispatchResp w v f = Inl m" "\<not> endsWith m ''a disabled workflow''"
  have body: "run_body w = (Inl (RequestError m), evs @ debug_events w c @ dispatch_events w v f)"
    by (rule run_body_rejected [OF a(1-4)])
  then show trace: "run w = Info (banner w) # evs @ debug_events w c @ dispatch_events w v f @ [SetFailed m]"
    using run_of_error [OF body] a(5) by simp
  show "failures (run w) = [m]" "requests (run w) = [(dispatch_route w f, params w v)]"
    by (simp_all add: trace readers workflows_quiet [OF a(2)])
next
  assume a: "inputs w = Inr v" "workflows w v = (Inr c, evs)" "foundWorkflow (workflowRef w) c = Some f"
    "dispatchResp w v f = Inr resp"
    "get_prop (resp_data resp) ''status'' = Inr (JStr ''queued'')"
    "get_prop (resp_data resp) ''workflow_url'' = Inr u" "truthy u"
    "request w (''GET '' @ to_string u) None = Inl m" "\<not> endsWith m ''a disabled workflow''"
  note co = correlate_read_failed [OF a(5-8)]
  have body: "run_body w = (Inl (RequestError m),
      evs @ debug_events w c @ dispatch_events w v f @ [Request (''GET '' @ to_string u) None])"
    by (rule run_body_uncorrelated [OF a(1-4) co])
  then show trace: "run w = Info (banner w) # evs @ debug_events w c @ dispatch_events w v f @
              [Request (''GET '' @ to_string u) None, SetFailed m]"
    using run_of_error [OF body] a(9) by simp
  show "failures (run w) = [m]"
    "requests (run w) = [(dispatch_route w f, params w v), (''GET '' @ to_string u, None)]"
    by (simp_all add: trace readers workflows_quiet [OF a(2)])
next
  assume a: "fst (run_body w) = Inl e"
  show "failures (run w) = [] \<longleftrightarrow> endsWith (message e) ''a disabled workflow''"
    using a run_body_quiet [of w]
    by (cases "endsWith (message e) ''a disabled workflow''")
       (simp_all add: run_caught run_failed failures_append)
  show "failures (run w) = [message e]" if "\<not> endsWith (message e) ''a disabled workflow''"
    using a that run_body_quiet [of w] by (simp add: run_failed failures_append)
qed

theorem network_failure_is_reported_witness:
  "failures (run (scenario ''deploy.yml'' [] (FailedPage ''Bad credentials'') (Inr queued) (Inr run_555))) =
     [''Bad credentials''] \<and>
   failures (run (scenario ''deploy.yml'' [] (LastPage [build, deploy]) (Inl ''Not Found'') (Inr run_555))) =
     [''Not Found''] \<and>
   failures (run (scenario ''deploy.yml'' [] (LastPage [build, deploy]) (Inr queued) (Inl ''Server Error''))) =
     [''Server Error'']"
proof -
  let ?a = "scenario ''deploy.yml'' [] (FailedPage ''Bad credentials'') (Inr queued) (Inr run_555)"
  let ?b = "scenario ''deploy.yml'' [] (LastPage [build, deploy]) (Inl ''Not Found'') (Inr run_555)"
  let ?c = "scenario ''deploy.yml'' [] (LastPage [build, deploy]) (Inr queued) (Inl ''Server Error'')"
  let ?page = "[PageRequest \<lparr>o_owner = Some ''octo'', o_repo = Some ''demo'', o_ref = ''main'', o_inputs = JObj []\<rparr> 1]"
  have other: "\<not> endsWith ''Bad credentials'' ''a disabled workflow''"
      "\<not> endsWith ''Not Found'' ''a disabled workflow''"
      "\<not> endsWith ''Server Error'' ''a disabled workflow''"
    by (simp_all add: endsWith_def)
  have status: "get_prop (resp_data queued) ''status'' = Inr (JStr ''queued'')"
    by (simp add: queued_def)
  have url: "get_prop (resp_data queued) ''workflow_url'' =
      Inr (JStr ''https://api.example/runs-collection'') \<and>
      truthy (JStr ''https://api.example/runs-collection'')"
    by (simp add: queued_def)
  have read: "request ?c (''GET '' @ to_string (JStr ''https://api.example/runs-collection'')) None =
      Inl ''Server Error''"
    by (simp add: scenario_def provider_def)
  have "failures (run ?a) = [''Bad credentials'']"
    using network_failure_is_reported [where w = ?a and v = "JObj []" and m = "''Bad credentials''"
        and evs = ?page]
      scenario_inputs_empty [of "''deploy.yml''" "FailedPage ''Bad credentials''" "Inr queued" "Inr run_555"]
      scenario_workflows_failed [of "''deploy.yml''" "[]" "''Bad credentials''" "Inr queued" "Inr run_555" "JObj []"]
      other(1)
    by blast
  moreover have "failures (run ?b) = [''Not Found'']"
    using network_failure_is_reported [where w = ?b and v = "JObj []" and m = "''Not Found''"
        and evs = ?page and c = "[build, deploy]" and f = deploy]
      scenario_inputs_empty [of "''deploy.yml''" "LastPage [build, deploy]" "Inl ''Not Found''" "Inr run_555"]
      scenario_workflows [of "''deploy.yml''" "[]" "Inl ''Not Found''" "Inr run_555" "JObj []"]
      scenario_found [of "[]" "LastPage [build, deploy]" "Inl ''Not Found''" "Inr run_555"]
      scenario_dispatchResp [of "''deploy.yml''" "[]" "LastPage [build, deploy]" "Inl ''Not Found''" "Inr run_555" "JObj []"]
      other(2)
    by blast
  moreover have "failures (run ?c) = [''Server Error'']"
    using network_failure_is_reported [where w = ?c and v = "JObj []" and m = "''Server Error''"
        and evs = ?page and c = "[build, deploy]" and f = deploy and resp = queued
        and u = "JStr ''https://api.example/runs-collection''"]
      scenario_inputs_empty [of "''deploy.yml''" "LastPage [build, deploy]" "Inr queued" "Inl ''Server Error''"]
      scenario_workflows [of "''deploy.yml''" "[]" "Inr queued" "Inl ''Server Error''" "JObj []"]
      scenario_found [of "[]" "LastPage [build, deploy]" "Inr queued" "Inl ''Server Error''"]
      scenario_dispatchResp [of "''deploy.yml''" "[]" "LastPage [build, deploy]" "Inr queued" "Inl ''Server Error''" "JObj []"]
      status url read other(3)
    by blast
  ultimately show ?thesis
    by blast
qed

text \<open>
  C6. For every catalog in which no entry matches the workflow reference, the invocation
  reports the failure signal, with a message that contains the owner, the repository and
  the reference, and makes no dispatch call (no request besides the page requests).
\<close>

theorem unmatched_reference_fails:
  assumes "inputs w = Inr v" and "workflows w v = (Inr c, evs)"
    and "\<forall>x \<in> set c. \<not> matches (workflowRef w) x"
  shows "run w = Info (banner w) # evs @ debug_events w c @ [SetFailed (not_found w)] \<and>
         failures (run w) = [not_found w] \<and>
         requests (run w) = [] \<and>
         not_found w =
           ''Unable to find workflow '' @ quote @ workflowRef w @ quote @ '' in '' @
           interp (owner w) @ ''/'' @ interp (repo w) @ '' '' @ [CHR 0xF0, CHR 0x9F, CHR 0x98, CHR 0xA5] \<and>
         sublist (workflowRef w) (not_found w) \<and>
         sublist (interp (owner w)) (not_found w) \<and>
         sublist (interp (repo w)) (not_found w)"
proof -
  have none: "foundWorkflow (workflowRef w) c = None"
    using assms(3) by (simp add: foundWorkflow_def find_None_iff)
  have body: "run_body w = (Inl (Error (not_found w)), evs @ debug_events w c)"
    by (rule run_body_missing [OF assms(1,2) none])
  have trace: "run w = Info (banner w) # evs @ debug_events w c @ [SetFailed (not_found w)]"
    using run_of_error [OF body] not_found_fatal by simp
  have "failures (run w) = [not_found w]" "requests (run w) = []"
    by (simp_all add: trace readers workflows_quiet [OF assms(2)])
  moreover have "sublist (workflowRef w) (not_found w)"
    unfolding not_found_def sublist_def
    by (metis append.assoc)
  moreover have "sublist (interp (owner w)) (not_found w)"
    unfolding not_found_def sublist_def
    by (metis append.assoc)
  moreover have "sublist (interp (repo w)) (not_found w)"
    unfolding not_found_def sublist_def
    by (metis append.assoc)
  ultimately show ?thesis
    using trace by (simp add: not_found_def)
qed

theorem unmatched_reference_fails_witness:
  "foundWorkflow ''nonexistent'' [build, deploy] = None \<and>
   failures (run (scenario ''nonexistent'' [] (LastPage [build, deploy]) (Inr queued) (Inr run_555))) =
     [''Unable to find workflow '' @ quote @ ''nonexistent'' @ quote @ '' in octo/demo '' @
      [CHR 0xF0, CHR 0x9F, CHR 0x98, CHR 0xA5]] \<and>
   requests (run (scenario ''nonexistent'' [] (LastPage [build, deploy]) (Inr queued) (Inr run_555))) = []"
proof -
  let ?w = "scenario ''nonexistent'' [] (LastPage [build, deploy]) (Inr queued) (Inr run_555)"
  have unmatched: "\<forall>x \<in> set [build, deploy]. \<not> matches (workflowRef ?w) x"
    by (simp add: matches_def workflowRef_def scenario_defs string_defs)
  have msg: "not_found ?w = ''Unable to find workflow '' @ quote @ ''nonexistent'' @ quote @ '' in octo/demo '' @
      [CHR 0xF0, CHR 0x9F, CHR 0x98, CHR 0xA5]"
    by (simp add: not_found_def workflowRef_def owner_def repo_def owner_repo_def scenario_def)
  from unmatched_reference_fails [OF scenario_inputs_empty scenario_workflows unmatched]
  have "failures (run ?w) = [not_found ?w]" and "requests (run ?w) = []"
    by blast+
  moreover have "foundWorkflow ''nonexistent'' [build, deploy] = None"
    by (simp add: foundWorkflow_def matches_def scenario_defs string_defs)
  ultimately show ?thesis
    unfolding msg by blast
qed

text \<open>
  C7. For every non-empty inputs string that \<^verbatim>\<open>JSON.parse\<close> rejects, the body throws the
  syntax error before any event, so no page request and no other request is made, and the
  invocation reports the failure signal with the engine's message. The text of that message
  is the engine's; the failure signal is shown for every engine whose syntax-error messages
  do not end with \<^verbatim>\<open>a disabled workflow\<close>.
\<close>

theorem malformed_inputs_fail:
  assumes "getInput w ''inputs'' \<noteq> []"
    and "JSON_parse w (getInput w ''inputs'') = Inl m"
  shows "run_body w = (Inl (SyntaxError m), []) \<and>
         page_requests (run w) = [] \<and> requests (run w) = [] \<and>
         (\<not> endsWith m ''a disabled workflow'' \<longrightarrow>
            run w = [Info (banner w), SetFailed m] \<and> failures (run w) = [m])"
proof -
  have "inputs w = Inl (SyntaxError m)"
    using assms by (simp add: inputs_def)
  then have body: "run_body w = (Inl (SyntaxError m), [])"
    by (simp add: run_body_def)
  then have "page_requests (run w) = []" "requests (run w) = []"
    by (simp_all add: run_page_requests run_requests)
  moreover have "run w = [Info (banner w), SetFailed m]" if "\<not> endsWith m ''a disabled workflow''"
    using run_of_error [OF body] that by simp
  ultimately show ?thesis
    using body by simp
qed

theorem malformed_inputs_fail_witness:
  "getInput (scenario ''deploy.yml'' ''{bad json'' (LastPage [build, deploy]) (Inr queued) (Inr run_555)) ''inputs'' \<noteq> [] \<and>
   \<not> endsWith ''Unexpected token b in JSON at position 1'' ''a disabled workflow'' \<and>
   run (scenario ''deploy.yml'' ''{bad json'' (LastPage [build, deploy]) (Inr queued) (Inr run_555)) =
     [Info (banner (scenario ''deploy.yml'' ''{bad json'' (LastPage [build, deploy]) (Inr queued) (Inr run_555))),
      SetFailed ''Unexpected token b in JSON at position 1'']"
proof -
  let ?w = "scenario ''deploy.yml'' ''{bad json'' (LastPage [build, deploy]) (Inr queued) (Inr run_555)"
  have given: "getInput ?w ''inputs'' \<noteq> []"
    by (simp add: scenario_def)
  have rejected: "JSON_parse ?w (getInput ?w ''inputs'') = Inl ''Unexpected token b in JSON at position 1''"
    by (simp add: scenario_defs)
  have other: "\<not> endsWith ''Unexpected token b in JSON at position 1'' ''a disabled workflow''"
    by (simp add: endsWith_def)
  from malformed_inputs_fail [OF given rejected] given other show ?thesis
    by blast
qed

subsection \<open>Inputs that are not validated\<close>

text \<open>
  C9. The empty reference matches every workflow, since every path ends with the empty
  string; so for every non-empty catalog the matcher selects its first entry. An empty
  reference (which is also what an input that is not set reads as) is not rejected: when
  the inputs decode and the catalog is fetched, the invocation goes on to send the
  dispatch request for that first entry.
\<close>

theorem empty_reference_selects_first:
  "matches [] x \<and>
   foundWorkflow [] (x # xs) = Some x \<and>
   (workflowRef w = [] \<and> inputs w = Inr v \<and> workflows w v = (Inr (x # xs), evs) \<longrightarrow>
      (\<exists>rest. run w = Info (banner w) # evs @ debug_events w (x # xs) @ dispatch_events w v x @ rest))"
proof -
  have first: "foundWorkflow [] (x # xs) = Some x"
    by (simp add: foundWorkflow_def matches_empty)
  have "\<exists>rest. run w = Info (banner w) # evs @ debug_events w (x # xs) @ dispatch_events w v x @ rest"
    if "workflowRef w = []" and "inputs w = Inr v" and "workflows w v = (Inr (x # xs), evs)"
    using run_reaches_dispatch [OF that(2,3), of x] first that(1) by simp
  with first show ?thesis
    by (simp add: matches_empty)
qed

theorem empty_reference_selects_first_witness:
  "foundWorkflow [] [build, deploy] = Some build \<and>
   hd (requests (run (scenario [] [] (LastPage [build, deploy]) (Inr queued) (Inr run_555)))) =
     (''POST /repos/octo/demo/actions/workflows/1/dispatches'', Some \<lparr>p_ref = ''main'', p_inputs = JObj []\<rparr>)"
proof -
  let ?w = "scenario [] [] (LastPage [build, deploy]) (Inr queued) (Inr run_555)"
  have given: "workflowRef ?w = [] \<and> inputs ?w = Inr (JObj []) \<and>
      workflows ?w (JObj []) = (Inr (build # [deploy]),
        [PageRequest \<lparr>o_owner = Some ''octo'', o_repo = Some ''demo'', o_ref = ''main'', o_inputs = JObj []\<rparr> 1])"
    by (simp add: scenario_inputs_empty scenario_workflows) (simp add: workflowRef_def scenario_def)
  note c9 = empty_reference_selects_first [of build "[deploy]" ?w "JObj []"
      "[PageRequest \<lparr>o_owner = Some ''octo'', o_repo = Some ''demo'', o_ref = ''main'', o_inputs = JObj []\<rparr> 1]"]
  from c9 have first: "foundWorkflow [] [build, deploy] = Some build"
    by blast
  from c9 given obtain rest where
    "run ?w = Info (banner ?w) #
       [PageRequest \<lparr>o_owner = Some ''octo'', o_repo = Some ''demo'', o_ref = ''main'', o_inputs = JObj []\<rparr> 1] @
       debug_events ?w [build, deploy] @ dispatch_events ?w (JObj []) build @ rest"
    by blast
  then have "hd (requests (run ?w)) = (dispatch_route ?w build, params ?w (JObj []))"
    by (simp add: readers)
  with first show ?thesis
    by (simp add: scenario_route_build scenario_params)
qed

text \<open>
  C10. For every non-empty inputs string that \<^verbatim>\<open>JSON.parse\<close> accepts, whatever value it
  denotes (an array, a number, a string as well as an object), the decoding raises no
  error, no syntax error is thrown anywhere in the body, and the dispatch request carries
  the parsed value itself as its \<^verbatim>\<open>inputs\<close>.
\<close>

theorem parsed_inputs_pass_through:
  assumes "getInput w ''inputs'' \<noteq> []" and "JSON_parse w (getInput w ''inputs'') = Inr v"
    and "workflows w v = (Inr c, evs)" and "foundWorkflow (workflowRef w) c = Some f"
  shows "inputs w = Inr v \<and>
         (\<forall>m. fst (run_body w) \<noteq> Inl (SyntaxError m)) \<and>
         (\<exists>rest. run w = Info (banner w) # evs @ debug_events w c @
            [ConsoleLog (found_line f), ConsoleLog calling_line,
             Request (dispatch_route w f) (Some \<lparr>p_ref = ref w, p_inputs = v\<rparr>)] @ rest)"
proof -
  have decoded: "inputs w = Inr v"
    using assms(1,2) by (simp add: inputs_def)
  have "fst (run_body w) \<noteq> Inl (SyntaxError m)" for m
  proof (cases w rule: run_body_cases)
    case (uncorrelated v' c' evs' f' resp e evs3)
    then show ?thesis
      using correlate_error_kind [of w resp e evs3] by auto
  qed (use decoded assms(3,4) in auto)
  moreover have "\<exists>rest. run w = Info (banner w) # evs @ debug_events w c @
            [ConsoleLog (found_line f), ConsoleLog calling_line,
             Request (dispatch_route w f) (Some \<lparr>p_ref = ref w, p_inputs = v\<rparr>)] @ rest"
    using run_reaches_dispatch [OF decoded assms(3,4)] by (simp add: dispatch_events_def params_def)
  ultimately show ?thesis
    using decoded by blast
qed

theorem parsed_inputs_pass_through_witness:
  "inputs (scenario ''deploy.yml'' ''[1]'' (LastPage [build, deploy]) (Inr queued) (Inr run_555)) =
     Inr (JArr [JNum 1]) \<and>
   hd (requests (run (scenario ''deploy.yml'' ''[1]'' (LastPage [build, deploy]) (Inr queued) (Inr run_555)))) =
     (''POST /repos/octo/demo/actions/workflows/2/dispatches'',
      Some \<lparr>p_ref = ''main'', p_inputs = JArr [JNum 1]\<rparr>)"
proof -
  let ?w = "scenario ''deploy.yml'' ''[1]'' (LastPage [build, deploy]) (Inr queued) (Inr run_555)"
  have given: "getInput ?w ''inputs'' \<noteq> []"
    by (simp add: scenario_def)
  have parsed: "JSON_parse ?w (getInput ?w ''inputs'') = Inr (JArr [JNum 1])"
    by (simp add: scenario_defs)
  note c10 = parsed_inputs_pass_through [OF given parsed scenario_workflows scenario_found]
  from c10 have decoded: "inputs ?w = Inr (JArr [JNum 1])"
    by blast
  from c10 obtain rest where
    "run ?w = Info (banner ?w) #
       [PageRequest \<lparr>o_owner = Some ''octo'', o_repo = Some ''demo'', o_ref = ''main'',
          o_inputs = JArr [JNum 1]\<rparr> 1] @
       debug_events ?w [build, deploy] @
       [ConsoleLog (found_line deploy), ConsoleLog calling_line,
        Request (dispatch_route ?w deploy) (Some \<lparr>p_ref = ref ?w, p_inputs = JArr [JNum 1]\<rparr>)] @ rest"
    by blast
  then have "hd (requests (run ?w)) =
      (dispatch_route ?w deploy, Some \<lparr>p_ref = ref ?w, p_inputs = JArr [JNum 1]\<rparr>)"
    by (simp add: readers)
  moreover have "ref ?w = ''main''"
    by (simp add: ref_def scenario_def)
  ultimately show ?thesis
    using decoded by (simp add: scenario_route)
qed

end
